theory Spec2Isabelle
  imports Complex_Main "HOL-Library.AList"
begin

section \<open>Errors\<close>

text \<open>
  The Python sources raise \<open>ValueError\<close> (with different messages), \<open>KeyError\<close> (a
  dictionary read of a missing key) and \<open>NotImplementedError\<close>. Every kind of raise is
  one constructor:
  \<^item> \<open>EmptyRanking\<close>: \<open>ValueError("Ranking cannot be empty")\<close> of \<open>Ballot.__init__\<close>;
  \<^item> \<open>DuplicateCandidates\<close>: \<open>ValueError("Ranking contains duplicate candidates")\<close>;
  \<^item> \<open>CandidateNotInBallot c\<close>: \<open>ValueError("Candidate 'c' not in ballot")\<close> of
    \<open>Ballot.prefers\<close>;
  \<^item> \<open>NotInSequence\<close>: the \<open>ValueError\<close> of \<open>index\<close> on an absent element;
  \<^item> \<open>EmptySequence\<close>: the \<open>ValueError\<close> of \<open>min\<close> or \<open>max\<close> on an empty iterable;
  \<^item> \<open>KeyError\<close> and \<open>NotImplementedError\<close>.
\<close>

type_synonym candidate = string

datatype error =
    EmptyRanking
  | DuplicateCandidates
  | CandidateNotInBallot candidate
  | NotInSequence
  | EmptySequence
  | KeyError
  | NotImplementedError

text \<open>The two errors of ballot construction (the spec's InvalidBallot).\<close>

fun is_InvalidBallot :: "error \<Rightarrow> bool" where
  "is_InvalidBallot EmptyRanking = True"
| "is_InvalidBallot DuplicateCandidates = True"
| "is_InvalidBallot _ = False"

text \<open>The error of a preference query on an absent candidate (the spec's UnknownCandidate).\<close>

fun is_UnknownCandidate :: "error \<Rightarrow> bool" where
  "is_UnknownCandidate (CandidateNotInBallot c) = True"
| "is_UnknownCandidate _ = False"

text \<open>Sequencing of computations that may raise: the first error is the result.\<close>

definition bind_err :: "error + 'a \<Rightarrow> ('a \<Rightarrow> error + 'b) \<Rightarrow> error + 'b" where
  "bind_err m f = (case m of Inl e \<Rightarrow> Inl e | Inr v \<Rightarrow> f v)"

text \<open>A \<open>for\<close> loop over a list whose body updates a state and may raise.\<close>

fun for_each :: "'a list \<Rightarrow> ('a \<Rightarrow> 's \<Rightarrow> error + 's) \<Rightarrow> 's \<Rightarrow> error + 's" where
  "for_each [] body s = Inr s"
| "for_each (x # xs) body s = bind_err (body x s) (for_each xs body)"

text \<open>A dictionary read \<open>d[k]\<close>.\<close>

definition lookup :: "('k \<rightharpoonup> 'v) \<Rightarrow> 'k \<Rightarrow> error + 'v" where
  "lookup d k = (case d k of None \<Rightarrow> Inl KeyError | Some v \<Rightarrow> Inr v)"

text \<open>\<open>xs.index(x)\<close>: the position of the first occurrence; \<open>None\<close> when it raises.\<close>

fun index_of :: "'a list \<Rightarrow> 'a \<Rightarrow> nat option" where
  "index_of [] x = None"
| "index_of (y # ys) x = (if y = x then Some 0 else map_option Suc (index_of ys x))"

definition py_index :: "'a list \<Rightarrow> 'a \<Rightarrow> error + nat" where
  "py_index xs x = (case index_of xs x of None \<Rightarrow> Inl NotInSequence | Some i \<Rightarrow> Inr i)"

text \<open>\<open>min(xs)\<close> and \<open>max(xs)\<close> of a finite iterable.\<close>

definition py_min :: "nat list \<Rightarrow> error + nat" where
  "py_min xs = (case xs of [] \<Rightarrow> Inl EmptySequence | y # ys \<Rightarrow> Inr (fold min ys y))"

definition py_max :: "nat list \<Rightarrow> error + nat" where
  "py_max xs = (case xs of [] \<Rightarrow> Inl EmptySequence | y # ys \<Rightarrow> Inr (fold max ys y))"

section \<open>ballot.py\<close>

record ballot =
  ranking :: "candidate list"

text \<open>\<open>Ballot.__init__\<close>: \<open>len(ranking) != len(set(ranking))\<close> compares with the number
  of different elements.\<close>

definition Ballot :: "candidate list \<Rightarrow> error + ballot" where
  "Ballot rnk =
     (if rnk = [] then Inl EmptyRanking
      else if length rnk \<noteq> card (set rnk) then Inl DuplicateCandidates
      else Inr \<lparr>ranking = rnk\<rparr>)"

definition prefers :: "ballot \<Rightarrow> candidate \<Rightarrow> candidate \<Rightarrow> error + bool" where
  "prefers b cand_a cand_b =
     (if cand_a \<notin> set (ranking b) then Inl (CandidateNotInBallot cand_a)
      else if cand_b \<notin> set (ranking b) then Inl (CandidateNotInBallot cand_b)
      else bind_err (py_index (ranking b) cand_a) (\<lambda>ia.
           bind_err (py_index (ranking b) cand_b) (\<lambda>ib. Inr (ia < ib))))"

definition get_ranking :: "ballot \<Rightarrow> candidate list" where
  "get_ranking b = ranking b"

text \<open>\<open>aggregate_ballot_types\<close>: a dictionary from ballots (compared by ranking) to counts.\<close>

definition aggregate_ballot_types :: "ballot list \<Rightarrow> (ballot \<rightharpoonup> nat)" where
  "aggregate_ballot_types ballots =
     fold (\<lambda>b type_counts.
             type_counts(b \<mapsto> (case type_counts b of None \<Rightarrow> 0 | Some n \<Rightarrow> n) + 1))
          ballots Map.empty"

section \<open>tactical\_voting.py\<close>

text \<open>The loop that builds \<open>modified_ballots\<close>.\<close>

fun modified_ballots :: "ballot list \<Rightarrow> ballot \<Rightarrow> ballot \<Rightarrow> ballot list" where
  "modified_ballots [] voter_type new_ballot = []"
| "modified_ballots (b # bs) voter_type new_ballot =
     (if b = voter_type then new_ballot else b) # modified_ballots bs voter_type new_ballot"

definition simulate_election_with_modified_ballots ::
  "ballot list \<Rightarrow> ballot \<Rightarrow> candidate list \<Rightarrow>
   (ballot list \<Rightarrow> candidate list \<Rightarrow> error + 'r) \<Rightarrow> candidate list \<Rightarrow> error + 'r" where
  "simulate_election_with_modified_ballots original_ballots voter_type new_ranking
       voting_system candidates =
     (let type_counts = aggregate_ballot_types original_ballots;
          num_of_type = (case type_counts voter_type of None \<Rightarrow> 0 | Some n \<Rightarrow> n)
      in if num_of_type = 0 then voting_system original_ballots candidates
         else bind_err (Ballot new_ranking) (\<lambda>new_ballot.
                voting_system (modified_ballots original_ballots voter_type new_ballot)
                  candidates))"

text \<open>The generator \<open>true_ranking.index(w) for w in winners if w in true_ranking\<close>.\<close>

fun winner_positions :: "candidate list \<Rightarrow> candidate list \<Rightarrow> error + nat list" where
  "winner_positions true_ranking [] = Inr []"
| "winner_positions true_ranking (w # ws) =
     (if w \<in> set true_ranking
      then bind_err (py_index true_ranking w) (\<lambda>i.
           bind_err (winner_positions true_ranking ws) (\<lambda>is. Inr (i # is)))
      else winner_positions true_ranking ws)"

definition is_better_outcome ::
  "candidate list \<Rightarrow> candidate list \<Rightarrow> candidate list \<Rightarrow> error + bool" where
  "is_better_outcome true_ranking original_winners new_winners =
     bind_err (bind_err (winner_positions true_ranking original_winners) py_min)
       (\<lambda>original_best_position.
     bind_err (bind_err (winner_positions true_ranking new_winners) py_min)
       (\<lambda>new_best_position.
     Inr (new_best_position < original_best_position)))"

section \<open>algorithms.py\<close>

text \<open>The counting loop of \<open>get_head_to_head_matrix\<close> for one ordered pair.\<close>

definition count_prefers :: "ballot list \<Rightarrow> candidate \<Rightarrow> candidate \<Rightarrow> error + nat" where
  "count_prefers ballots cand_a cand_b =
     for_each ballots
       (\<lambda>b count. bind_err (prefers b cand_a cand_b)
                     (\<lambda>t. Inr (if t then count + 1 else count)))
       0"

definition get_head_to_head_matrix ::
  "ballot list \<Rightarrow> candidate list \<Rightarrow> error + (candidate \<times> candidate \<rightharpoonup> nat)" where
  "get_head_to_head_matrix ballots candidates =
     for_each candidates (\<lambda>cand_a.
       for_each candidates (\<lambda>cand_b h2h.
         if cand_a = cand_b then Inr h2h
         else bind_err (count_prefers ballots cand_a cand_b)
                (\<lambda>count. Inr (h2h((cand_a, cand_b) \<mapsto> count)))))
       Map.empty"

text \<open>The three functions the lab leaves to be written raise \<open>NotImplementedError\<close>.\<close>

definition find_condorcet_winner ::
  "ballot list \<Rightarrow> candidate list \<Rightarrow> error + candidate option" where
  "find_condorcet_winner ballots candidates = Inl NotImplementedError"

definition copeland ::
  "ballot list \<Rightarrow> candidate list \<Rightarrow> error + (candidate list \<times> (candidate \<times> rat) list)" where
  "copeland ballots candidates = Inl NotImplementedError"

definition borda_count ::
  "ballot list \<Rightarrow> candidate list \<Rightarrow> error + (candidate list \<times> (candidate \<times> nat) list)" where
  "borda_count ballots candidates = Inl NotImplementedError"

text \<open>\<open>schulze\<close>, first loop: the direct defeat strengths.\<close>

definition schulze_init ::
  "(candidate \<times> candidate \<rightharpoonup> nat) \<Rightarrow> candidate list
   \<Rightarrow> error + (candidate \<times> candidate \<rightharpoonup> nat)" where
  "schulze_init h2h candidates =
     for_each candidates (\<lambda>cand_i.
       for_each candidates (\<lambda>cand_j p.
         if cand_i \<noteq> cand_j
         then bind_err (lookup h2h (cand_i, cand_j)) (\<lambda>a.
              bind_err (lookup h2h (cand_j, cand_i)) (\<lambda>b.
              if a > b
              then bind_err (lookup h2h (cand_i, cand_j))
                     (\<lambda>v. Inr (p((cand_i, cand_j) \<mapsto> v)))
              else Inr (p((cand_i, cand_j) \<mapsto> 0))))
         else Inr p))
       Map.empty"

text \<open>The body of the innermost loop of the closure, for one triple \<open>(k, i, j)\<close>.\<close>

definition closure_step ::
  "candidate \<Rightarrow> candidate \<Rightarrow> candidate \<Rightarrow> (candidate \<times> candidate \<rightharpoonup> nat)
   \<Rightarrow> error + (candidate \<times> candidate \<rightharpoonup> nat)" where
  "closure_step cand_k cand_i cand_j p =
     (if cand_j = cand_i \<or> cand_j = cand_k then Inr p
      else bind_err (lookup p (cand_i, cand_k)) (\<lambda>x.
           bind_err (lookup p (cand_k, cand_j)) (\<lambda>y.
           let path_strength = min x y in
           bind_err (lookup p (cand_i, cand_j)) (\<lambda>z.
           Inr (p((cand_i, cand_j) \<mapsto> max z path_strength))))))"

text \<open>\<open>schulze\<close>, second loop: the strongest beatpaths.\<close>

definition schulze_closure ::
  "candidate list \<Rightarrow> (candidate \<times> candidate \<rightharpoonup> nat)
   \<Rightarrow> error + (candidate \<times> candidate \<rightharpoonup> nat)" where
  "schulze_closure candidates p =
     for_each candidates (\<lambda>cand_k.
       for_each candidates (\<lambda>cand_i p'.
         if cand_i = cand_k then Inr p'
         else for_each candidates (closure_step cand_k cand_i) p'))
       p"

text \<open>The strength matrix \<open>p\<close> as \<open>schulze\<close> has it when the closure loop has finished.\<close>

definition beatpath_strengths ::
  "ballot list \<Rightarrow> candidate list \<Rightarrow> error + (candidate \<times> candidate \<rightharpoonup> nat)" where
  "beatpath_strengths ballots candidates =
     bind_err (get_head_to_head_matrix ballots candidates) (\<lambda>h2h.
     bind_err (schulze_init h2h candidates) (\<lambda>p.
     schulze_closure candidates p))"

text \<open>The dictionary \<open>scores\<close> keeps its insertion order, which \<open>scores.items()\<close> reads:
  an association list, a write to a present key keeps the key's place.\<close>

definition initial_scores :: "candidate list \<Rightarrow> (candidate \<times> nat) list" where
  "initial_scores candidates = fold (\<lambda>c scores. AList.update c 0 scores) candidates []"

definition schulze_scores ::
  "candidate list \<Rightarrow> (candidate \<times> candidate \<rightharpoonup> nat) \<Rightarrow> error + (candidate \<times> nat) list" where
  "schulze_scores candidates p =
     for_each candidates (\<lambda>cand_i.
       for_each candidates (\<lambda>cand_j scores.
         if cand_i \<noteq> cand_j
         then bind_err (lookup p (cand_i, cand_j)) (\<lambda>x.
              bind_err (lookup p (cand_j, cand_i)) (\<lambda>y.
              if x > y
              then bind_err (lookup (map_of scores) cand_i)
                     (\<lambda>s. Inr (AList.update cand_i (s + 1) scores))
              else Inr scores))
         else Inr scores))
       (initial_scores candidates)"

definition schulze ::
  "ballot list \<Rightarrow> candidate list \<Rightarrow> error + (candidate list \<times> (candidate \<times> nat) list)" where
  "schulze ballots candidates =
     bind_err (beatpath_strengths ballots candidates) (\<lambda>p.
     bind_err (schulze_scores candidates p) (\<lambda>scores.
     bind_err (py_max (map snd scores)) (\<lambda>max_score.
     Inr (map fst (filter (\<lambda>(cand, score). score = max_score) scores), scores))))"

section \<open>Notions of the specification\<close>

text \<open>A valid election input: a non-empty list of different candidates, and ballots
  that rank exactly these candidates, each once.\<close>

definition valid_election :: "ballot list \<Rightarrow> candidate list \<Rightarrow> bool" where
  "valid_election ballots candidates =
     (candidates \<noteq> [] \<and> distinct candidates \<and>
      (\<forall>b \<in> set ballots. distinct (ranking b) \<and> set (ranking b) = set candidates))"

text \<open>The margin of a single hop \<open>(X, Y)\<close> in a head-to-head matrix.\<close>

definition hop_margin :: "(candidate \<times> candidate \<rightharpoonup> nat) \<Rightarrow> candidate \<times> candidate \<Rightarrow> nat" where
  "hop_margin h2h xy =
     (case (h2h (fst xy, snd xy), h2h (snd xy, fst xy)) of
        (Some a, Some b) \<Rightarrow> if a > b then a else 0
      | _ \<Rightarrow> 0)"

text \<open>The strength of the path \<open>x \<rightarrow> v\<^sub>1 \<rightarrow> \<dots> \<rightarrow> v\<^sub>n \<rightarrow> y\<close>, given by its intermediate
  candidates: the least margin of its hops.\<close>

fun path_strength :: "(candidate \<times> candidate \<Rightarrow> nat) \<Rightarrow> candidate \<Rightarrow> candidate list
                      \<Rightarrow> candidate \<Rightarrow> nat" where
  "path_strength m x [] y = m (x, y)"
| "path_strength m x (v # vs) y = min (m (x, v)) (path_strength m v vs y)"

text \<open>\<open>C\<close> beats every other candidate head to head.\<close>

definition condorcet_winner ::
  "(candidate \<times> candidate \<rightharpoonup> nat) \<Rightarrow> candidate list \<Rightarrow> candidate \<Rightarrow> bool" where
  "condorcet_winner h2h candidates c =
     (c \<in> set candidates \<and>
      (\<forall>d \<in> set candidates. d \<noteq> c \<longrightarrow>
         (case (h2h (c, d), h2h (d, c)) of (Some a, Some b) \<Rightarrow> a > b | _ \<Rightarrow> False)))"

section \<open>Auxiliary notions for the proofs\<close>

text \<open>A ballot ranks \<open>x\<close> before \<open>y\<close>; the number of ballots that do; the writes
  of a doubly nested loop that sets one entry per ordered pair of different keys, and the
  dictionary such a loop produces.\<close>

definition ranks_before :: "ballot \<Rightarrow> candidate \<Rightarrow> candidate \<Rightarrow> bool" where
  "ranks_before b x y =
     (case (index_of (ranking b) x, index_of (ranking b) y) of
        (Some i, Some j) \<Rightarrow> i < j
      | _ \<Rightarrow> False)"

definition votes_for :: "ballot list \<Rightarrow> candidate \<times> candidate \<Rightarrow> nat" where
  "votes_for ballots xy = length (filter (\<lambda>b. ranks_before b (fst xy) (snd xy)) ballots)"

definition fill :: "('a \<times> 'a \<Rightarrow> 'v) \<Rightarrow> 'a \<Rightarrow> 'a \<Rightarrow> ('a \<times> 'a \<rightharpoonup> 'v) \<Rightarrow> ('a \<times> 'a \<rightharpoonup> 'v)" where
  "fill v a b h = (if a = b then h else h((a, b) \<mapsto> v (a, b)))"

definition filled :: "('a \<times> 'a \<Rightarrow> 'v) \<Rightarrow> 'a set \<Rightarrow> ('a \<times> 'a \<rightharpoonup> 'v)" where
  "filled v C = (\<lambda>xy. if fst xy \<in> C \<and> snd xy \<in> C \<and> fst xy \<noteq> snd xy then Some (v xy) else None)"

section \<open>Basic facts\<close>

lemma bind_err_Inr [simp]: "bind_err (Inr v) f = f v"
  by (simp add: bind_err_def)

lemma bind_err_Inl [simp]: "bind_err (Inl e) f = Inl e"
  by (simp add: bind_err_def)

subsection \<open>Positions and preference queries\<close>

lemma index_of_None_iff: "index_of xs x = None \<longleftrightarrow> x \<notin> set xs"
  by (induction xs) auto

lemma index_of_Some:
  "index_of xs x = Some i \<Longrightarrow> i < length xs \<and> xs ! i = x \<and> (\<forall>j<i. xs ! j \<noteq> x)"
proof (induction xs arbitrary: i)
  case Nil
  then show ?case by simp
next
  case (Cons y ys)
  show ?case
  proof (cases "y = x")
    case True
    with Cons.prems show ?thesis by simp
  next
    case False
    with Cons.prems obtain i' where i': "index_of ys x = Some i'" "i = Suc i'"
      by auto
    from Cons.IH [OF i'(1)] False i'(2) show ?thesis
      by (auto simp: less_Suc_eq_0_disj)
  qed
qed

lemma index_of_mem: "x \<in> set xs \<Longrightarrow> \<exists>i. index_of xs x = Some i"
  using index_of_None_iff [of xs x] by (cases "index_of xs x") auto

lemma index_of_nth_distinct:
  assumes "distinct xs" "i < length xs"
  shows "index_of xs (xs ! i) = Some i"
proof -
  from assms(2) have "xs ! i \<in> set xs" by (rule nth_mem)
  from index_of_mem [OF this] obtain k where k: "index_of xs (xs ! i) = Some k" ..
  have kl: "k < length xs"
    using index_of_Some [OF k] by (rule conjunct1)
  have ke: "xs ! k = xs ! i"
    using index_of_Some [OF k] by (rule conjunct2 [THEN conjunct1])
  from nth_eq_iff_index_eq [OF assms(1) kl assms(2)] ke have "k = i"
    by (rule iffD1)
  with k show ?thesis by (simp only:)
qed

lemma prefers_present:
  assumes "cand_a \<in> set (ranking b)" "cand_b \<in> set (ranking b)"
  shows "\<exists>ia ib. index_of (ranking b) cand_a = Some ia \<and> index_of (ranking b) cand_b = Some ib
                \<and> prefers b cand_a cand_b = Inr (ia < ib)"
proof -
  from index_of_mem [OF assms(1)] obtain ia where "index_of (ranking b) cand_a = Some ia" ..
  moreover
  from index_of_mem [OF assms(2)] obtain ib where "index_of (ranking b) cand_b = Some ib" ..
  ultimately have "index_of (ranking b) cand_a = Some ia" "index_of (ranking b) cand_b = Some ib"
    by simp_all
  with assms show ?thesis by (simp add: prefers_def py_index_def)
qed

text \<open>
  Claim C8. On a ballot (whose ranking has no repeated candidate), for two candidates
  both in the ranking \<open>prefers\<close> returns true exactly when the first stands at an
  earlier position than the second; it raises the unknown-candidate error exactly when
  one of the two is absent from the ranking, and raises no other error.
\<close>

theorem prefers_earlier_position:
  assumes "distinct (ranking b)"
  shows "(cand_a \<in> set (ranking b) \<and> cand_b \<in> set (ranking b) \<longrightarrow>
            prefers b cand_a cand_b =
              Inr (\<exists>i j. i < j \<and> j < length (ranking b) \<and>
                         ranking b ! i = cand_a \<and> ranking b ! j = cand_b)) \<and>
         ((\<exists>e. prefers b cand_a cand_b = Inl e \<and> is_UnknownCandidate e) \<longleftrightarrow>
            (cand_a \<notin> set (ranking b) \<or> cand_b \<notin> set (ranking b))) \<and>
         (\<forall>e. prefers b cand_a cand_b = Inl e \<longrightarrow> is_UnknownCandidate e)"
proof (cases "cand_a \<in> set (ranking b) \<and> cand_b \<in> set (ranking b)")
  case True
  then obtain ia ib where
    ia: "index_of (ranking b) cand_a = Some ia" and
    ib: "index_of (ranking b) cand_b = Some ib" and
    r: "prefers b cand_a cand_b = Inr (ia < ib)"
    using prefers_present by blast
  note pa = index_of_Some [OF ia] and pb = index_of_Some [OF ib]
  have "(ia < ib) = (\<exists>i j. i < j \<and> j < length (ranking b) \<and>
                         ranking b ! i = cand_a \<and> ranking b ! j = cand_b)"
  proof
    assume "ia < ib"
    with pa pb show "\<exists>i j. i < j \<and> j < length (ranking b) \<and>
                         ranking b ! i = cand_a \<and> ranking b ! j = cand_b"
      by blast
  next
    assume "\<exists>i j. i < j \<and> j < length (ranking b) \<and>
                         ranking b ! i = cand_a \<and> ranking b ! j = cand_b"
    then obtain i j where ij: "i < j" "j < length (ranking b)"
      "ranking b ! i = cand_a" "ranking b ! j = cand_b" by blast
    from ij have "index_of (ranking b) cand_a = Some i"
      using index_of_nth_distinct [OF assms, of i] by auto
    moreover from ij have "index_of (ranking b) cand_b = Some j"
      using index_of_nth_distinct [OF assms, of j] by auto
    ultimately show "ia < ib" using ia ib ij(1) by simp
  qed
  with r True show ?thesis by simp
next
  case False
  then show ?thesis by (auto simp: prefers_def)
qed

theorem prefers_earlier_position_witness:
  "distinct (ranking \<lparr>ranking = [''A'', ''B'', ''C'']\<rparr>) \<and>
   ''A'' \<in> set (ranking \<lparr>ranking = [''A'', ''B'', ''C'']\<rparr>) \<and>
   ''C'' \<in> set (ranking \<lparr>ranking = [''A'', ''B'', ''C'']\<rparr>) \<and>
   prefers \<lparr>ranking = [''A'', ''B'', ''C'']\<rparr> ''A'' ''C'' = Inr True \<and>
   (\<exists>i j. i < j \<and> j < length (ranking \<lparr>ranking = [''A'', ''B'', ''C'']\<rparr>) \<and>
          ranking \<lparr>ranking = [''A'', ''B'', ''C'']\<rparr> ! i = ''A'' \<and>
          ranking \<lparr>ranking = [''A'', ''B'', ''C'']\<rparr> ! j = ''C'')"
proof -
  let ?b = "\<lparr>ranking = [''A'', ''B'', ''C'']\<rparr>"
  have d: "distinct (ranking ?b)" by simp
  have m: "''A'' \<in> set (ranking ?b) \<and> ''C'' \<in> set (ranking ?b)" by simp
  have v: "prefers ?b ''A'' ''C'' = Inr True"
    by (simp add: prefers_def py_index_def)
  from prefers_earlier_position [OF d, of "''A''" "''C''"] m
  have "prefers ?b ''A'' ''C'' =
          Inr (\<exists>i j. i < j \<and> j < length (ranking ?b) \<and>
                     ranking ?b ! i = ''A'' \<and> ranking ?b ! j = ''C'')"
    by (rule conjunct1 [THEN mp])
  with v have "\<exists>i j. i < j \<and> j < length (ranking ?b) \<and>
                     ranking ?b ! i = ''A'' \<and> ranking ?b ! j = ''C''"
    by (simp only: sum.inject)
  with d m v show ?thesis by (intro conjI) (rule conjunct1, assumption | rule conjunct2, assumption| assumption)+
qed

subsection \<open>Ballot construction\<close>

lemma length_card_iff: "length xs \<noteq> card (set xs) \<longleftrightarrow> \<not> distinct xs"
  using distinct_card [of xs] card_distinct [of xs] by auto

text \<open>
  Claim C9. Constructing a ballot fails with an invalid-ballot error exactly when the
  sequence is empty or has a duplicate candidate (and fails with no other error); every
  other sequence gives a ballot whose ranking is that sequence.
\<close>

theorem Ballot_construction:
  "((\<exists>e. Ballot rnk = Inl e \<and> is_InvalidBallot e) \<longleftrightarrow> (rnk = [] \<or> \<not> distinct rnk)) \<and>
   (\<forall>e. Ballot rnk = Inl e \<longrightarrow> is_InvalidBallot e) \<and>
   (rnk \<noteq> [] \<and> distinct rnk \<longrightarrow> (\<exists>b. Ballot rnk = Inr b \<and> ranking b = rnk))"
  by (auto simp: Ballot_def length_card_iff)

theorem Ballot_construction_witness:
  "Ballot [] = Inl EmptyRanking \<and>
   Ballot [''A'', ''B'', ''A''] = Inl DuplicateCandidates \<and>
   [''A'', ''B''] \<noteq> [] \<and> distinct [''A'', ''B''] \<and>
   (\<exists>b. Ballot [''A'', ''B''] = Inr b \<and> ranking b = [''A'', ''B''])"
proof -
  have "[''A'', ''B''] \<noteq> [] \<and> distinct [''A'', ''B'']" by simp
  with Ballot_construction [of "[''A'', ''B'']"]
  have "\<exists>b. Ballot [''A'', ''B''] = Inr b \<and> ranking b = [''A'', ''B'']" by blast
  moreover have "Ballot [] = Inl EmptyRanking" by (simp add: Ballot_def)
  moreover have "Ballot [''A'', ''B'', ''A''] = Inl DuplicateCandidates"
    unfolding Ballot_def length_card_iff by simp
  ultimately show ?thesis by simp
qed

subsection \<open>Voter types and the simulated election\<close>

lemma fold_type_counts:
  "fold (\<lambda>b type_counts.
           type_counts(b \<mapsto> (case type_counts b of None \<Rightarrow> 0 | Some n \<Rightarrow> n) + 1)) bs m v =
   (if v \<in> set bs
    then Some ((case m v of None \<Rightarrow> 0 | Some n \<Rightarrow> n) + count_list bs v)
    else m v)"
  by (induction bs arbitrary: m) auto

lemma num_of_type_zero_iff:
  "(case aggregate_ballot_types bs v of None \<Rightarrow> 0 | Some n \<Rightarrow> n) = 0 \<longleftrightarrow> v \<notin> set bs"
  unfolding aggregate_ballot_types_def fold_type_counts
  by (simp add: count_list_0_iff)

lemma simulate_absent:
  "voter_type \<notin> set original_ballots \<Longrightarrow>
   simulate_election_with_modified_ballots original_ballots voter_type new_ranking
     voting_system candidates = voting_system original_ballots candidates"
  by (simp add: simulate_election_with_modified_ballots_def num_of_type_zero_iff)

lemma simulate_present:
  "voter_type \<in> set original_ballots \<Longrightarrow>
   simulate_election_with_modified_ballots original_ballots voter_type new_ranking
     voting_system candidates =
   bind_err (Ballot new_ranking) (\<lambda>new_ballot.
     voting_system (modified_ballots original_ballots voter_type new_ballot) candidates)"
  by (simp add: simulate_election_with_modified_ballots_def num_of_type_zero_iff)

text \<open>
  Claim C6. When no ballot of the collection equals the voter type, the simulation
  returns what the voting rule returns on the original ballots, whatever the new ranking,
  the candidate list and the rule are.
\<close>

theorem simulate_absent_voter_type:
  assumes "voter_type \<notin> set original_ballots"
  shows "simulate_election_with_modified_ballots original_ballots voter_type new_ranking
           voting_system candidates = voting_system original_ballots candidates"
  using assms by (rule simulate_absent)

theorem simulate_absent_voter_type_witness:
  "\<lparr>ranking = [''X'', ''Y'', ''Z'']\<rparr> \<notin> set
     [\<lparr>ranking = [''A'', ''B'', ''C'']\<rparr>, \<lparr>ranking = [''A'', ''B'', ''C'']\<rparr>,
      \<lparr>ranking = [''B'', ''C'', ''A'']\<rparr>, \<lparr>ranking = [''B'', ''C'', ''A'']\<rparr>,
      \<lparr>ranking = [''C'', ''A'', ''B'']\<rparr>] \<and>
   simulate_election_with_modified_ballots
     [\<lparr>ranking = [''A'', ''B'', ''C'']\<rparr>, \<lparr>ranking = [''A'', ''B'', ''C'']\<rparr>,
      \<lparr>ranking = [''B'', ''C'', ''A'']\<rparr>, \<lparr>ranking = [''B'', ''C'', ''A'']\<rparr>,
      \<lparr>ranking = [''C'', ''A'', ''B'']\<rparr>]
     \<lparr>ranking = [''X'', ''Y'', ''Z'']\<rparr> [''A'', ''B'', ''C''] schulze [''A'', ''B'', ''C''] =
   Inr ([''B''], [(''A'', 0), (''B'', 1), (''C'', 0)])"
proof -
  let ?bs = "[\<lparr>ranking = [''A'', ''B'', ''C'']\<rparr>, \<lparr>ranking = [''A'', ''B'', ''C'']\<rparr>,
      \<lparr>ranking = [''B'', ''C'', ''A'']\<rparr>, \<lparr>ranking = [''B'', ''C'', ''A'']\<rparr>,
      \<lparr>ranking = [''C'', ''A'', ''B'']\<rparr>]"
  have a: "\<lparr>ranking = [''X'', ''Y'', ''Z'']\<rparr> \<notin> set ?bs" by simp
  have v: "schulze ?bs [''A'', ''B'', ''C''] = Inr ([''B''], [(''A'', 0), (''B'', 1), (''C'', 0)])"
    by code_simp
  from simulate_absent_voter_type [OF a, of "[''A'', ''B'', ''C'']" schulze "[''A'', ''B'', ''C'']"] v
  have "simulate_election_with_modified_ballots ?bs \<lparr>ranking = [''X'', ''Y'', ''Z'']\<rparr>
          [''A'', ''B'', ''C''] schulze [''A'', ''B'', ''C''] =
        Inr ([''B''], [(''A'', 0), (''B'', 1), (''C'', 0)])"
    by (rule trans)
  with a show ?thesis by (rule conjI)
qed

text \<open>
  Claim C10. When the voter type does not occur, the result is that of the rule on the
  original ballots for every new ranking, so no ballot is built from the new ranking and
  an empty or duplicate-containing one raises nothing. When the voter type occurs, an
  empty or duplicate-containing new ranking is rejected with the invalid-ballot error, and
  a valid one replaces the ballots of that type.
\<close>

theorem simulate_validates_only_when_present:
  "(voter_type \<notin> set original_ballots \<longrightarrow>
      simulate_election_with_modified_ballots original_ballots voter_type new_ranking
        voting_system candidates = voting_system original_ballots candidates) \<and>
   (voter_type \<in> set original_ballots \<and> (new_ranking = [] \<or> \<not> distinct new_ranking) \<longrightarrow>
      (\<exists>e. simulate_election_with_modified_ballots original_ballots voter_type new_ranking
             voting_system candidates = Inl e \<and> is_InvalidBallot e)) \<and>
   (voter_type \<in> set original_ballots \<and> new_ranking \<noteq> [] \<and> distinct new_ranking \<longrightarrow>
      simulate_election_with_modified_ballots original_ballots voter_type new_ranking
        voting_system candidates =
      voting_system
        (modified_ballots original_ballots voter_type \<lparr>ranking = new_ranking\<rparr>) candidates)"
  by (auto simp: simulate_absent simulate_present Ballot_def length_card_iff)

theorem simulate_validates_only_when_present_witness:
  "\<lparr>ranking = [''X'', ''Y'']\<rparr> \<notin> set [\<lparr>ranking = [''A'', ''B'']\<rparr>, \<lparr>ranking = [''B'', ''A'']\<rparr>] \<and>
   simulate_election_with_modified_ballots
     [\<lparr>ranking = [''A'', ''B'']\<rparr>, \<lparr>ranking = [''B'', ''A'']\<rparr>]
     \<lparr>ranking = [''X'', ''Y'']\<rparr> [] schulze [''A'', ''B''] =
   schulze [\<lparr>ranking = [''A'', ''B'']\<rparr>, \<lparr>ranking = [''B'', ''A'']\<rparr>] [''A'', ''B''] \<and>
   \<lparr>ranking = [''A'', ''B'']\<rparr> \<in> set [\<lparr>ranking = [''A'', ''B'']\<rparr>, \<lparr>ranking = [''B'', ''A'']\<rparr>] \<and>
   (\<exists>e. simulate_election_with_modified_ballots
          [\<lparr>ranking = [''A'', ''B'']\<rparr>, \<lparr>ranking = [''B'', ''A'']\<rparr>]
          \<lparr>ranking = [''A'', ''B'']\<rparr> [''B'', ''B''] schulze [''A'', ''B''] = Inl e \<and>
        is_InvalidBallot e) \<and>
   simulate_election_with_modified_ballots
     [\<lparr>ranking = [''A'', ''B'']\<rparr>, \<lparr>ranking = [''B'', ''A'']\<rparr>]
     \<lparr>ranking = [''A'', ''B'']\<rparr> [''B'', ''A''] schulze [''A'', ''B''] =
   schulze (modified_ballots [\<lparr>ranking = [''A'', ''B'']\<rparr>, \<lparr>ranking = [''B'', ''A'']\<rparr>]
              \<lparr>ranking = [''A'', ''B'']\<rparr> \<lparr>ranking = [''B'', ''A'']\<rparr>) [''A'', ''B'']"
proof -
  let ?bs = "[\<lparr>ranking = [''A'', ''B'']\<rparr>, \<lparr>ranking = [''B'', ''A'']\<rparr>]"
  let ?x = "\<lparr>ranking = [''X'', ''Y'']\<rparr>"
  let ?a = "\<lparr>ranking = [''A'', ''B'']\<rparr>"
  have 1: "?x \<notin> set ?bs" by simp
  have 2: "?a \<in> set ?bs" by simp
  have 3: "?a \<in> set ?bs \<and> ([''B'', ''B''] = [] \<or> \<not> distinct [''B'', ''B''])" by simp
  have 4: "?a \<in> set ?bs \<and> [''B'', ''A''] \<noteq> [] \<and> distinct [''B'', ''A'']" by simp
  note t1 = simulate_validates_only_when_present [of ?x ?bs "[]" schulze "[''A'', ''B'']"]
  note t2 = simulate_validates_only_when_present [of ?a ?bs "[''B'', ''B'']" schulze "[''A'', ''B'']"]
  note t3 = simulate_validates_only_when_present [of ?a ?bs "[''B'', ''A'']" schulze "[''A'', ''B'']"]
  from t1 [THEN conjunct1, THEN mp, OF 1]
       t2 [THEN conjunct2, THEN conjunct1, THEN mp, OF 3]
       t3 [THEN conjunct2, THEN conjunct2, THEN mp, OF 4] 1 2
  show ?thesis by (intro conjI)
qed

subsection \<open>Comparing outcomes\<close>

lemma fold_min_Min: "fold min ys (y::nat) = Min (set (y # ys))"
  by (simp only: Min.set_eq_fold)

lemma py_min_nonempty: "xs \<noteq> [] \<Longrightarrow> py_min xs = Inr (Min (set xs))"
  by (cases xs) (simp_all add: py_min_def fold_min_Min del: fold_simps)

text \<open>The first position of a candidate in a ranking, 0 if there is none.\<close>

lemma winner_positions_eq:
  "winner_positions tr ws =
     Inr (map (\<lambda>w. case index_of tr w of None \<Rightarrow> 0 | Some i \<Rightarrow> i)
            (filter (\<lambda>w. w \<in> set tr) ws))"
proof (induction ws)
  case Nil
  show ?case by simp
next
  case (Cons w ws)
  show ?case
  proof (cases "w \<in> set tr")
    case True
    from index_of_mem [OF True] obtain i where "index_of tr w = Some i" ..
    with True Cons.IH show ?thesis by (simp add: py_index_def)
  next
    case False
    with Cons.IH show ?thesis by simp
  qed
qed

lemma Min_first_positions:
  assumes "ws \<noteq> []" "set ws \<subseteq> set tr"
  shows "Min (set (map (\<lambda>w. case index_of tr w of None \<Rightarrow> 0 | Some i \<Rightarrow> i) ws)) =
         Min {i. i < length tr \<and> tr ! i \<in> set ws}"
proof -
  let ?f = "\<lambda>w. case index_of tr w of None \<Rightarrow> (0::nat) | Some i \<Rightarrow> i"
  let ?A = "{i. i < length tr \<and> tr ! i \<in> set ws}"
  let ?B = "set (map ?f ws)"
  have finA: "finite ?A" by simp
  have finB: "finite ?B" by simp
  have neB: "?B \<noteq> {}" using assms(1) by simp
  have BA: "?B \<subseteq> ?A"
  proof
    fix n assume "n \<in> ?B"
    then have "n \<in> ?f ` set ws" by (simp only: set_map)
    then obtain w where w: "w \<in> set ws" "n = ?f w" by (rule imageE) simp
    from w(1) assms(2) have "w \<in> set tr" by (rule subsetD [rotated])
    from index_of_mem [OF this] obtain i where i: "index_of tr w = Some i" ..
    from index_of_Some [OF i] w i show "n \<in> ?A" by simp
  qed
  have neA: "?A \<noteq> {}"
  proof
    assume e: "?A = {}"
    from BA have "?B \<subseteq> {}" unfolding e .
    then have "?B = {}" by (simp only: subset_empty)
    with neB show False ..
  qed
  have le1: "Min ?A \<le> Min ?B"
    using BA neB finA by (rule Min_antimono)
  have le2: "Min ?B \<le> Min ?A"
  proof -
    from Min_in [OF finA neA] have a: "Min ?A < length tr" "tr ! Min ?A \<in> set ws" by simp_all
    let ?w = "tr ! Min ?A"
    from a(1) have "?w \<in> set tr" by (rule nth_mem)
    from index_of_mem [OF this] obtain i where i: "index_of tr ?w = Some i" ..
    have "i \<le> Min ?A"
    proof (rule ccontr)
      assume "\<not> i \<le> Min ?A"
      then have lt: "Min ?A < i" by simp
      from index_of_Some [OF i] have all: "\<forall>j<i. tr ! j \<noteq> ?w"
        by (rule conjunct2 [THEN conjunct2])
      from spec [OF all, of "Min ?A"] lt have "tr ! Min ?A \<noteq> ?w" by (rule mp)
      then show False by (rule notE) (rule refl)
    qed
    moreover have "?f ?w \<in> ?B" using a(2) by simp
    then have "Min ?B \<le> ?f ?w" using finB by (rule_tac Min_le)
    ultimately show ?thesis using i by simp
  qed
  from le1 le2 show ?thesis by simp
qed

lemma best_position:
  assumes "ws \<noteq> []" "set ws \<subseteq> set tr"
  shows "bind_err (winner_positions tr ws) py_min =
         Inr (Min {i. i < length tr \<and> tr ! i \<in> set ws})"
proof -
  from assms(2) have f: "filter (\<lambda>w. w \<in> set tr) ws = ws"
    by (simp add: subset_iff)
  from assms(1) have ne: "map (\<lambda>w. case index_of tr w of None \<Rightarrow> (0::nat) | Some i \<Rightarrow> i) ws \<noteq> []"
    by simp
  show ?thesis
    unfolding winner_positions_eq f
    by (simp only: bind_err_Inr py_min_nonempty [OF ne] Min_first_positions [OF assms])
qed

text \<open>
  Claim C5. For non-empty winner lists whose members all occur in the true ranking,
  \<open>is_better_outcome\<close> returns true exactly when the least position of the true ranking
  that holds a new winner is strictly below the least position that holds an original
  winner.
\<close>

theorem is_better_outcome_min_position:
  assumes "original_winners \<noteq> []" "new_winners \<noteq> []"
    and "set original_winners \<subseteq> set true_ranking" "set new_winners \<subseteq> set true_ranking"
  shows "is_better_outcome true_ranking original_winners new_winners =
         Inr (Min {i. i < length true_ranking \<and> true_ranking ! i \<in> set new_winners}
              < Min {i. i < length true_ranking \<and> true_ranking ! i \<in> set original_winners})"
  unfolding is_better_outcome_def
  by (simp only: best_position [OF assms(1,3)] best_position [OF assms(2,4)] bind_err_Inr)

theorem is_better_outcome_min_position_witness:
  "[''C'', ''B''] \<noteq> [] \<and> [''A''] \<noteq> [] \<and>
   set [''C'', ''B''] \<subseteq> set [''A'', ''B'', ''C''] \<and> set [''A''] \<subseteq> set [''A'', ''B'', ''C''] \<and>
   is_better_outcome [''A'', ''B'', ''C''] [''C'', ''B''] [''A''] = Inr True \<and>
   Min {i. i < length [''A'', ''B'', ''C''] \<and> [''A'', ''B'', ''C''] ! i \<in> set [''A'']}
     < Min {i. i < length [''A'', ''B'', ''C''] \<and> [''A'', ''B'', ''C''] ! i \<in> set [''C'', ''B'']}"
proof -
  have 1: "[''C'', ''B''] \<noteq> []" and 2: "[''A''] \<noteq> []" by simp_all
  have 3: "set [''C'', ''B''] \<subseteq> set [''A'', ''B'', ''C'']"
    and 4: "set [''A''] \<subseteq> set [''A'', ''B'', ''C'']" by simp_all
  have v: "is_better_outcome [''A'', ''B'', ''C''] [''C'', ''B''] [''A''] = Inr True"
    by code_simp
  from is_better_outcome_min_position [OF 1 2 3 4] v
  have "Min {i. i < length [''A'', ''B'', ''C''] \<and> [''A'', ''B'', ''C''] ! i \<in> set [''A'']}
     < Min {i. i < length [''A'', ''B'', ''C''] \<and> [''A'', ''B'', ''C''] ! i \<in> set [''C'', ''B'']}"
    by (simp only: sum.inject)
  with 1 2 3 4 v show ?thesis by (intro conjI)
qed

text \<open>
  Claim C7. The source of \<open>find_condorcet_winner\<close> is the unwritten lab exercise: on the
  election of its own unit test (where \<open>A\<close> beats every other candidate, and the test
  expects \<open>A\<close>) it raises \<open>NotImplementedError\<close>.
\<close>

theorem find_condorcet_winner_not_implemented:
  "find_condorcet_winner
     [\<lparr>ranking = [''A'', ''B'', ''C'']\<rparr>, \<lparr>ranking = [''A'', ''B'', ''C'']\<rparr>,
      \<lparr>ranking = [''A'', ''C'', ''B'']\<rparr>, \<lparr>ranking = [''B'', ''A'', ''C'']\<rparr>,
      \<lparr>ranking = [''C'', ''A'', ''B'']\<rparr>]
     [''A'', ''B'', ''C''] = Inl NotImplementedError"
  by (simp add: find_condorcet_winner_def)

subsection \<open>Loops\<close>

lemma for_each_pure:
  assumes "\<And>x s. x \<in> set xs \<Longrightarrow> body x s = Inr (g x s)"
  shows "for_each xs body s = Inr (fold g xs s)"
  using assms by (induction xs arbitrary: s) simp_all

lemma for_each_prefix_rule:
  assumes init: "P [] s"
    and step: "\<And>ds x rest t. xs = ds @ x # rest \<Longrightarrow> P ds t \<Longrightarrow>
                 \<exists>t'. body x t = Inr t' \<and> P (ds @ [x]) t'"
  shows "\<exists>s'. for_each xs body s = Inr s' \<and> P xs s'"
proof -
  have "\<And>ds t. xs = ds @ ys \<Longrightarrow> P ds t \<Longrightarrow> \<exists>s'. for_each ys body t = Inr s' \<and> P xs s'" for ys
  proof (induction ys)
    case Nil
    then show ?case by simp
  next
    case (Cons y ys)
    from step [OF Cons.prems(1) Cons.prems(2)]
    obtain t' where t': "body y t = Inr t'" "P (ds @ [y]) t'" by (elim exE conjE)
    from Cons.prems(1) have "xs = (ds @ [y]) @ ys" by simp
    from Cons.IH [OF this t'(2)] t'(1) show ?case by simp
  qed
  from this [of "[]" xs s] init show ?thesis by simp
qed

lemma fold_fill_row:
  "fold (fill v a) ys h =
     (\<lambda>xy. if fst xy = a \<and> snd xy \<in> set ys \<and> snd xy \<noteq> a then Some (v xy) else h xy)"
proof (induction ys arbitrary: h)
  case Nil
  show ?case by simp
next
  case (Cons y ys)
  show ?case
    unfolding fold_simps Cons.IH
    by (rule ext) (auto simp: fill_def)
qed

lemma fold_fill_rows:
  "fold (\<lambda>a. fold (fill v a) ys) xs h =
     (\<lambda>xy. if fst xy \<in> set xs \<and> snd xy \<in> set ys \<and> fst xy \<noteq> snd xy then Some (v xy)
           else h xy)"
proof (induction xs arbitrary: h)
  case Nil
  show ?case by simp
next
  case (Cons x xs)
  let ?F = "\<lambda>a. fold (fill v a) ys"
  have "fold ?F (x # xs) h = fold ?F xs (fold (fill v x) ys h)" by simp
  also have "\<dots> = (\<lambda>xy. if fst xy \<in> set xs \<and> snd xy \<in> set ys \<and> fst xy \<noteq> snd xy
                        then Some (v xy) else fold (fill v x) ys h xy)"
    by (rule Cons.IH)
  also have "\<dots> = (\<lambda>xy. if fst xy \<in> set (x # xs) \<and> snd xy \<in> set ys \<and> fst xy \<noteq> snd xy
                        then Some (v xy) else h xy)"
    by (rule ext) (auto simp: fold_fill_row)
  finally show ?case .
qed

lemma fold_fill_matrix: "fold (\<lambda>a. fold (fill v a) cs) cs Map.empty = filled v (set cs)"
  unfolding fold_fill_rows filled_def by simp

lemma for_each_fill:
  assumes "\<And>a b h. a \<in> set cs \<Longrightarrow> b \<in> set cs \<Longrightarrow> body a b h = Inr (fill v a b h)"
  shows "for_each cs (\<lambda>a. for_each cs (body a)) Map.empty = Inr (filled v (set cs))"
proof -
  have inner: "for_each cs (body a) h = Inr (fold (fill v a) cs h)" if "a \<in> set cs" for a h
    using assms [OF that] by (rule for_each_pure)
  have "for_each cs (\<lambda>a. for_each cs (body a)) Map.empty
          = Inr (fold (\<lambda>a. fold (fill v a) cs) cs Map.empty)"
    using inner by (rule for_each_pure)
  then show ?thesis by (simp only: fold_fill_matrix)
qed

subsection \<open>The head-to-head matrix\<close>

lemma prefers_ranks_before:
  assumes "x \<in> set (ranking b)" "y \<in> set (ranking b)"
  shows "prefers b x y = Inr (ranks_before b x y)"
proof -
  from prefers_present [OF assms] obtain ia ib where
    "index_of (ranking b) x = Some ia" "index_of (ranking b) y = Some ib"
    "prefers b x y = Inr (ia < ib)" by (elim exE conjE)
  then show ?thesis by (simp add: ranks_before_def)
qed

lemma ranks_before_total:
  assumes "x \<in> set (ranking b)" "y \<in> set (ranking b)" "x \<noteq> y"
  shows "ranks_before b y x \<longleftrightarrow> \<not> ranks_before b x y"
proof -
  from index_of_mem [OF assms(1)] obtain i where i: "index_of (ranking b) x = Some i" ..
  from index_of_mem [OF assms(2)] obtain j where j: "index_of (ranking b) y = Some j" ..
  from index_of_Some [OF i] have "ranking b ! i = x" by simp
  moreover from index_of_Some [OF j] have "ranking b ! j = y" by simp
  ultimately have "i \<noteq> j" using assms(3) by auto
  with i j show ?thesis by (auto simp: ranks_before_def)
qed

lemma count_loop:
  assumes "\<forall>b \<in> set bs. x \<in> set (ranking b) \<and> y \<in> set (ranking b)"
  shows "for_each bs (\<lambda>b count. bind_err (prefers b x y)
                       (\<lambda>t. Inr (if t then count + 1 else count))) n
         = Inr (n + length (filter (\<lambda>b. ranks_before b x y) bs))"
  using assms
proof (induction bs arbitrary: n)
  case Nil
  show ?case by simp
next
  case (Cons b bs)
  from Cons.prems have "prefers b x y = Inr (ranks_before b x y)"
    by (simp add: prefers_ranks_before)
  moreover from Cons.prems have "\<forall>b \<in> set bs. x \<in> set (ranking b) \<and> y \<in> set (ranking b)"
    by simp
  ultimately show ?case by (simp add: Cons.IH)
qed

lemma count_prefers_votes_for:
  assumes "\<forall>b \<in> set ballots. x \<in> set (ranking b) \<and> y \<in> set (ranking b)"
  shows "count_prefers ballots x y = Inr (votes_for ballots (x, y))"
  unfolding count_prefers_def votes_for_def
  by (simp add: count_loop [OF assms])

lemma votes_for_sum:
  assumes "\<forall>b \<in> set ballots. x \<in> set (ranking b) \<and> y \<in> set (ranking b)" "x \<noteq> y"
  shows "votes_for ballots (x, y) + votes_for ballots (y, x) = length ballots"
proof -
  have "filter (\<lambda>b. ranks_before b y x) ballots = filter (\<lambda>b. \<not> ranks_before b x y) ballots"
  proof (rule filter_cong [OF refl])
    fix b assume "b \<in> set ballots"
    with assms(1) have "x \<in> set (ranking b)" "y \<in> set (ranking b)" by simp_all
    from ranks_before_total [OF this assms(2)]
    show "ranks_before b y x = (\<not> ranks_before b x y)" .
  qed
  then show ?thesis
    unfolding votes_for_def fst_conv snd_conv
    by (simp only: sum_length_filter_compl)
qed

lemma head_to_head_matrix_filled:
  assumes "\<forall>b \<in> set ballots. set candidates \<subseteq> set (ranking b)"
  shows "get_head_to_head_matrix ballots candidates
           = Inr (filled (votes_for ballots) (set candidates))"
  unfolding get_head_to_head_matrix_def
proof (rule for_each_fill)
  fix a b and h :: "candidate \<times> candidate \<rightharpoonup> nat"
  assume "a \<in> set candidates" "b \<in> set candidates"
  with assms have "\<forall>bl \<in> set ballots. a \<in> set (ranking bl) \<and> b \<in> set (ranking bl)"
    by (simp add: subset_iff)
  from count_prefers_votes_for [OF this]
  show "(if a = b then Inr h
         else bind_err (count_prefers ballots a b) (\<lambda>count. Inr (h((a, b) \<mapsto> count))))
        = Inr (fill (votes_for ballots) a b h)"
    by (simp add: fill_def)
qed

text \<open>
  Claim C3. When every ballot is a strict order that ranks all the listed candidates,
  the head-to-head matrix is built without error and, for every ordered pair of
  different candidates of the list, the two opposite counts add up to the number of
  ballots.
\<close>

theorem head_to_head_counts_sum:
  assumes "\<forall>b \<in> set ballots. distinct (ranking b) \<and> set candidates \<subseteq> set (ranking b)"
    and "cand_a \<in> set candidates" "cand_b \<in> set candidates" "cand_a \<noteq> cand_b"
  shows "\<exists>h2h m n. get_head_to_head_matrix ballots candidates = Inr h2h \<and>
           h2h (cand_a, cand_b) = Some m \<and> h2h (cand_b, cand_a) = Some n \<and>
           m + n = length ballots"
proof -
  from assms(1) have all: "\<forall>b \<in> set ballots. set candidates \<subseteq> set (ranking b)" by simp
  with assms(2,3)
  have both: "\<forall>b \<in> set ballots. cand_a \<in> set (ranking b) \<and> cand_b \<in> set (ranking b)"
    by (simp add: subset_iff)
  let ?h = "filled (votes_for ballots) (set candidates)"
  have "get_head_to_head_matrix ballots candidates = Inr ?h"
    using all by (rule head_to_head_matrix_filled)
  moreover have "?h (cand_a, cand_b) = Some (votes_for ballots (cand_a, cand_b))"
    using assms(2-4) by (simp add: filled_def)
  moreover have "?h (cand_b, cand_a) = Some (votes_for ballots (cand_b, cand_a))"
    using assms(2-4) by (simp add: filled_def)
  moreover note votes_for_sum [OF both assms(4)]
  ultimately show ?thesis by (intro exI conjI)
qed

theorem head_to_head_counts_sum_witness:
  "''A'' \<in> set [''A'', ''B'', ''C''] \<and> ''B'' \<in> set [''A'', ''B'', ''C''] \<and> ''A'' \<noteq> ''B'' \<and>
   (\<exists>h2h m n.
      get_head_to_head_matrix
        [\<lparr>ranking = [''A'', ''B'', ''C'']\<rparr>, \<lparr>ranking = [''A'', ''B'', ''C'']\<rparr>,
         \<lparr>ranking = [''A'', ''C'', ''B'']\<rparr>, \<lparr>ranking = [''B'', ''A'', ''C'']\<rparr>,
         \<lparr>ranking = [''C'', ''A'', ''B'']\<rparr>] [''A'', ''B'', ''C''] = Inr h2h \<and>
      h2h (''A'', ''B'') = Some m \<and> h2h (''B'', ''A'') = Some n \<and>
      m + n = length
        [\<lparr>ranking = [''A'', ''B'', ''C'']\<rparr>, \<lparr>ranking = [''A'', ''B'', ''C'']\<rparr>,
         \<lparr>ranking = [''A'', ''C'', ''B'']\<rparr>, \<lparr>ranking = [''B'', ''A'', ''C'']\<rparr>,
         \<lparr>ranking = [''C'', ''A'', ''B'']\<rparr>]) \<and>
   (case get_head_to_head_matrix
        [\<lparr>ranking = [''A'', ''B'', ''C'']\<rparr>, \<lparr>ranking = [''A'', ''B'', ''C'']\<rparr>,
         \<lparr>ranking = [''A'', ''C'', ''B'']\<rparr>, \<lparr>ranking = [''B'', ''A'', ''C'']\<rparr>,
         \<lparr>ranking = [''C'', ''A'', ''B'']\<rparr>] [''A'', ''B'', ''C''] of
      Inl e \<Rightarrow> (None, None)
    | Inr h2h \<Rightarrow> (h2h (''A'', ''B''), h2h (''B'', ''A''))) = (Some 4, Some 1)"
proof -
  let ?bs = "[\<lparr>ranking = [''A'', ''B'', ''C'']\<rparr>, \<lparr>ranking = [''A'', ''B'', ''C'']\<rparr>,
         \<lparr>ranking = [''A'', ''C'', ''B'']\<rparr>, \<lparr>ranking = [''B'', ''A'', ''C'']\<rparr>,
         \<lparr>ranking = [''C'', ''A'', ''B'']\<rparr>]"
  let ?cs = "[''A'', ''B'', ''C'']"
  have 1: "\<forall>b \<in> set ?bs. distinct (ranking b) \<and> set ?cs \<subseteq> set (ranking b)" by simp
  have 2: "''A'' \<in> set ?cs" and 3: "''B'' \<in> set ?cs" and 4: "''A'' \<noteq> ''B''" by simp_all
  have 5: "(case get_head_to_head_matrix ?bs ?cs of
      Inl e \<Rightarrow> (None, None)
    | Inr h2h \<Rightarrow> (h2h (''A'', ''B''), h2h (''B'', ''A''))) = (Some 4, Some 1)"
    by code_simp
  from head_to_head_counts_sum [OF 1 2 3 4] 2 3 4 5 show ?thesis by (intro conjI)
qed

end
